theory Spec2Isabelle
  imports Complex_Main "HOL-Library.Sublist"
begin

section \<open>Adjustment History Engine (src/components/ImageEditor.tsx)\<close>

subsection \<open>Adjustment vectors\<close>

text \<open>
  \<^verbatim>\<open>ImageAdjustments\<close> is an object of seven \<^verbatim>\<open>number\<close> channels. A JavaScript number
  is modelled as a real: the sliders deliver integers (\<^verbatim>\<open>parseInt\<close>), the history
  engine only copies and compares the channels, and the filter arithmetic is the
  arithmetic of the source read over the reals.
\<close>

record ImageAdjustments =
  brightness :: real
  contrast :: real
  saturation :: real
  exposure :: real
  hue :: real
  vibrance :: real
  sharpness :: real

definition DEFAULT_ADJUSTMENTS :: ImageAdjustments where
  "DEFAULT_ADJUSTMENTS =
     \<lparr>brightness = 100, contrast = 100, saturation = 100, exposure = 100,
      hue = 0, vibrance = 100, sharpness = 0\<rparr>"

text \<open>The keys of the object, and the object spread \<^verbatim>\<open>{ ...adjustments, [key]: value }\<close>.\<close>

datatype channel = Brightness | Contrast | Saturation | Exposure | Hue | Vibrance | Sharpness

fun spread_with :: "ImageAdjustments \<Rightarrow> channel \<Rightarrow> real \<Rightarrow> ImageAdjustments" where
  "spread_with a Brightness v = a\<lparr>brightness := v\<rparr>"
| "spread_with a Contrast v = a\<lparr>contrast := v\<rparr>"
| "spread_with a Saturation v = a\<lparr>saturation := v\<rparr>"
| "spread_with a Exposure v = a\<lparr>exposure := v\<rparr>"
| "spread_with a Hue v = a\<lparr>hue := v\<rparr>"
| "spread_with a Vibrance v = a\<lparr>vibrance := v\<rparr>"
| "spread_with a Sharpness v = a\<lparr>sharpness := v\<rparr>"

subsection \<open>The component state and its handlers\<close>

text \<open>
  The three \<^verbatim>\<open>useState\<close> cells the history engine works on. Every handler runs on the
  values of the render it was created in and the component renders again between two
  events, so a handler is a function from the state before to the state after.
\<close>

record editor =
  adjustments :: ImageAdjustments
  history :: "ImageAdjustments list"
  historyIndex :: nat

definition initial :: editor where
  "initial = \<lparr>adjustments = DEFAULT_ADJUSTMENTS, history = [DEFAULT_ADJUSTMENTS], historyIndex = 0\<rparr>"

text \<open>
  \<^verbatim>\<open>history[i]\<close>: the entry, or \<^verbatim>\<open>undefined\<close> (here \<open>None\<close>) when \<open>i\<close> is not an index
  of the array.
\<close>

definition js_index :: "'a list \<Rightarrow> nat \<Rightarrow> 'a option" where
  "js_index xs i = (if i < length xs then Some (xs ! i) else None)"

text \<open>
  \<^verbatim>\<open>pushToHistory\<close>: \<^verbatim>\<open>slice(0, historyIndex + 1)\<close>, \<^verbatim>\<open>push\<close>, then \<^verbatim>\<open>shift\<close> when the array
  has more than 25 entries; the position becomes \<^verbatim>\<open>newHistory.length - 1\<close>. The new
  array is never empty, so the subtraction stays in the naturals.
\<close>

definition pushToHistory :: "ImageAdjustments \<Rightarrow> editor \<Rightarrow> editor" where
  "pushToHistory newAdjustments s =
     (let pushed = take (historyIndex s + 1) (history s) @ [newAdjustments];
          newHistory = (if length pushed > 25 then tl pushed else pushed)
      in s\<lparr>history := newHistory, historyIndex := length newHistory - 1\<rparr>)"

text \<open>
  \<^verbatim>\<open>undo\<close>. Below position zero nothing happens. \<^verbatim>\<open>history[prevIndex]\<close> read outside the
  array is \<^verbatim>\<open>undefined\<close>; the working vector would then be \<^verbatim>\<open>undefined\<close> and the next
  render throws a TypeError on \<^verbatim>\<open>adjustments.brightness\<close>: that outcome is \<open>None\<close>.
\<close>

definition undo :: "editor \<Rightarrow> editor option" where
  "undo s =
     (if historyIndex s > 0 then
        (let prevIndex = historyIndex s - 1 in
           case js_index (history s) prevIndex of
             None \<Rightarrow> None
           | Some entry \<Rightarrow> Some (s\<lparr>historyIndex := prevIndex, adjustments := entry\<rparr>))
      else Some s)"

text \<open>
  \<^verbatim>\<open>redo\<close>. The guard \<^verbatim>\<open>historyIndex < history.length - 1\<close> is written with an addition:
  for an empty array the source compares with \<open>-1\<close> and both are false. Under the guard
  \<^verbatim>\<open>history[nextIndex]\<close> is always inside the array; the \<open>None\<close> branch is unreachable.
\<close>

definition redo :: "editor \<Rightarrow> editor" where
  "redo s =
     (if historyIndex s + 1 < length (history s) then
        (let nextIndex = historyIndex s + 1 in
           case js_index (history s) nextIndex of
             None \<Rightarrow> s
           | Some entry \<Rightarrow> s\<lparr>historyIndex := nextIndex, adjustments := entry\<rparr>)
      else s)"

definition handleAdjustmentChange :: "channel \<Rightarrow> real \<Rightarrow> editor \<Rightarrow> editor" where
  "handleAdjustmentChange key v s = s\<lparr>adjustments := spread_with (adjustments s) key v\<rparr>"

text \<open>
  \<^verbatim>\<open>handleAdjustmentEnd\<close> compares the two \<^verbatim>\<open>JSON.stringify\<close> texts. Both objects list
  the same seven keys in the same order, so the texts differ exactly when a channel
  differs; \<^verbatim>\<open>JSON.stringify(undefined)\<close> is \<^verbatim>\<open>undefined\<close>, which differs from every
  text.
\<close>

definition handleAdjustmentEnd :: "editor \<Rightarrow> editor" where
  "handleAdjustmentEnd s =
     (if (case js_index (history s) (historyIndex s) of
            None \<Rightarrow> True
          | Some entry \<Rightarrow> adjustments s \<noteq> entry)
      then pushToHistory (adjustments s) s
      else s)"

definition handleReset :: "editor \<Rightarrow> editor" where
  "handleReset s = pushToHistory DEFAULT_ADJUSTMENTS (s\<lparr>adjustments := DEFAULT_ADJUSTMENTS\<rparr>)"

subsection \<open>Sequences of operations\<close>

text \<open>
  The five operations of the engine as the user interface fires them: a slider
  movement, the end of a gesture (commit), and the three buttons.
\<close>

datatype action = SetChannel channel real | Commit | Undo | Redo | Reset

fun perform :: "action \<Rightarrow> editor \<Rightarrow> editor option" where
  "perform (SetChannel key v) s = Some (handleAdjustmentChange key v s)"
| "perform Commit s = Some (handleAdjustmentEnd s)"
| "perform Undo s = undo s"
| "perform Redo s = Some (redo s)"
| "perform Reset s = Some (handleReset s)"

fun run :: "action list \<Rightarrow> editor \<Rightarrow> editor option" where
  "run [] s = Some s"
| "run (a # as) s = (case perform a s of None \<Rightarrow> None | Some s' \<Rightarrow> run as s')"

text \<open>The invariant of the log: the position is an index and the capacity is kept.\<close>

definition valid :: "editor \<Rightarrow> bool" where
  "valid s = (historyIndex s < length (history s) \<and> length (history s) \<le> 25)"

text \<open>
  An edit is in progress when a slider has been moved and, since then, no gesture has
  ended, no reset was made and no undo or redo has moved the position (an undo at
  position zero and a redo at the last position do nothing). \<open>leaves_edit\<close> is the flag
  after one operation, from the state before and the state after; \<open>in_progress\<close> follows
  it through a sequence.
\<close>

fun leaves_edit :: "bool \<Rightarrow> action \<Rightarrow> editor \<Rightarrow> editor \<Rightarrow> bool" where
  "leaves_edit p (SetChannel key v) s s' = True"
| "leaves_edit p Commit s s' = False"
| "leaves_edit p Reset s s' = False"
| "leaves_edit p Undo s s' = (p \<and> historyIndex s' = historyIndex s)"
| "leaves_edit p Redo s s' = (p \<and> historyIndex s' = historyIndex s)"

fun in_progress :: "bool \<Rightarrow> action list \<Rightarrow> editor \<Rightarrow> bool" where
  "in_progress p [] s = p"
| "in_progress p (a # as) s =
     (case perform a s of
        None \<Rightarrow> True
      | Some s' \<Rightarrow> in_progress (leaves_edit p a s s') as s')"

text \<open>The working vector agrees with the entry at the position.\<close>

definition settled :: "editor \<Rightarrow> bool" where
  "settled s = (js_index (history s) (historyIndex s) = Some (adjustments s))"

text \<open>
  Seven slider movements that bring the working vector to \<open>d\<close>, and \<open>n\<close> gestures
  that each move the brightness slider to a new value and release it.
\<close>

definition edit :: "ImageAdjustments \<Rightarrow> action list" where
  "edit d =
     [SetChannel Brightness (brightness d), SetChannel Contrast (contrast d),
      SetChannel Saturation (saturation d), SetChannel Exposure (exposure d),
      SetChannel Hue (hue d), SetChannel Vibrance (vibrance d),
      SetChannel Sharpness (sharpness d)]"

definition gestures :: "nat \<Rightarrow> action list" where
  "gestures n = concat (map (\<lambda>i. [SetChannel Brightness (real i), Commit]) [1..<Suc n])"

text \<open>Four vectors used to run the engine on examples.\<close>

definition ex_A :: ImageAdjustments where
  "ex_A = DEFAULT_ADJUSTMENTS"

definition ex_B :: ImageAdjustments where
  "ex_B = DEFAULT_ADJUSTMENTS\<lparr>brightness := 150\<rparr>"

definition ex_C :: ImageAdjustments where
  "ex_C = DEFAULT_ADJUSTMENTS\<lparr>brightness := 150, contrast := 80\<rparr>"

definition ex_D :: ImageAdjustments where
  "ex_D = DEFAULT_ADJUSTMENTS\<lparr>brightness := 150, hue := 45\<rparr>"

subsection \<open>The filter description\<close>

text \<open>\<^verbatim>\<open>Array.prototype.join\<close> on an array of strings.\<close>

fun js_join :: "string \<Rightarrow> string list \<Rightarrow> string" where
  "js_join sep [] = []"
| "js_join sep [x] = x"
| "js_join sep (x # y # ys) = x @ sep @ js_join sep (y # ys)"

text \<open>
  \<^verbatim>\<open>filterString\<close>: the array of six template literals, joined by a space. A channel
  holds a finite double, read as the real number it denotes, so the comparison with 50
  is the comparison of the reals. An arithmetic operation of the language is the exact
  operation followed by the rounding of its result to a double, and the literals
  \<^verbatim>\<open>0.2\<close> and \<^verbatim>\<open>0.05\<close> denote the doubles they round to: that rounding is the parameter
  \<open>fl\<close>. The conversion of a number to text inside a template literal is the language's
  \<^verbatim>\<open>Number::toString\<close>; it is the parameter \<open>num\<close>.
\<close>

definition filterTerms ::
  "(real \<Rightarrow> real) \<Rightarrow> (real \<Rightarrow> string) \<Rightarrow> ImageAdjustments \<Rightarrow> string list" where
  "filterTerms fl num a =
     [''brightness('' @ num (brightness a) @ ''%)'',
      ''contrast('' @ num (fl (contrast a + fl (sharpness a * fl 0.2))) @ ''%)'',
      ''saturate('' @ num (fl (saturation a + fl (vibrance a - 100))) @ ''%)'',
      ''opacity('' @ num (exposure a) @ ''%)'',
      ''hue-rotate('' @ num (hue a) @ ''deg)'',
      (if sharpness a > 50
       then ''brightness('' @ num (fl (100 + fl (sharpness a * fl 0.05))) @ ''%)''
       else '''')]"

definition filterString ::
  "(real \<Rightarrow> real) \<Rightarrow> (real \<Rightarrow> string) \<Rightarrow> ImageAdjustments \<Rightarrow> string" where
  "filterString fl num a = js_join '' '' (filterTerms fl num a)"




text \<open>
  A conversion for whole numbers, which is what \<^verbatim>\<open>Number::toString\<close> prints for them
  (below \<open>10\<^sup>2\<^sup>1\<close>): it is used to run the filter on examples.
\<close>

fun digits :: "nat \<Rightarrow> string" where
  "digits n = (if n < 10 then [char_of (48 + n)] else digits (n div 10) @ [char_of (48 + n mod 10)])"

declare digits.simps [simp del]

definition integral :: "real \<Rightarrow> string" where
  "integral x = (if x < 0 then ''-'' else '''') @ digits (nat \<lfloor>\<bar>x\<bar>\<rfloor>)"

section \<open>Resilient Remote Client (services/gemini.ts)\<close>

subsection \<open>Strings\<close>

text \<open>
  A JavaScript string is modelled as an Isabelle string, and case is mapped on the ASCII
  letters only. That is enough for what the client looks for: the markers searched in a
  lowercased text (\<^verbatim>\<open>429\<close>, \<^verbatim>\<open>503\<close>, \<^verbatim>\<open>quota\<close>, \<^verbatim>\<open>overloaded\<close>) hold none of the letters
  that \<^verbatim>\<open>toLowerCase\<close> produces from a character outside ASCII, and under the flag \<^verbatim>\<open>i\<close>
  of a regular expression a character outside ASCII never matches an ASCII one.
  \<^verbatim>\<open>String.prototype.includes\<close> tests for a contiguous occurrence.
\<close>

definition lower_char :: "char \<Rightarrow> char" where
  "lower_char c = (let n = of_char c :: nat in if 65 \<le> n \<and> n \<le> 90 then char_of (n + 32) else c)"

definition toLowerCase :: "string \<Rightarrow> string" where
  "toLowerCase s = map lower_char s"

fun str_includes :: "string \<Rightarrow> string \<Rightarrow> bool" where
  "str_includes [] sub = (sub = [])"
| "str_includes (c # cs) sub = (prefix sub (c # cs) \<or> str_includes cs sub)"

subsection \<open>The retry wrapper\<close>

text \<open>
  A failure is what \<^verbatim>\<open>fn\<close> throws, an error object as the SDK and the client itself
  throw them: of it the wrapper reads \<^verbatim>\<open>err.status\<close> (for the warning only) and
  \<^verbatim>\<open>err.toString()\<close>. What the wrapper does besides returning is recorded as a trace:
  each call of \<^verbatim>\<open>fn\<close>, each \<^verbatim>\<open>console.warn\<close> (status and delay) and each wait of
  \<^verbatim>\<open>delay\<close> milliseconds.
\<close>

record js_error =
  status :: "int option"
  toString :: string

datatype event = Attempt | Warn int int | Sleep int

definition isRetryable :: "string \<Rightarrow> bool" where
  "isRetryable msg =
     (str_includes msg ''429'' \<or> str_includes msg ''503'' \<or> str_includes msg ''quota'' \<or>
      str_includes msg ''overloaded'')"

text \<open>
  \<^verbatim>\<open>callWithRetry(fn, retries = 3, delay = 1000)\<close>. The remote operation \<^verbatim>\<open>fn\<close> acts on
  the world \<open>w\<close> and either returns a value (\<open>Inr\<close>) or throws (\<open>Inl\<close>); \<^verbatim>\<open>throw err\<close>
  hands the caller the failure that was caught. The recursion ends because each
  retry lowers a positive budget.
\<close>

function callWithRetry ::
  "('w \<Rightarrow> (js_error + 'a) \<times> 'w) \<Rightarrow> int \<Rightarrow> int \<Rightarrow> 'w \<Rightarrow> event list \<Rightarrow>
     (js_error + 'a) \<times> 'w \<times> event list" where
  "callWithRetry fn retries delay w tr =
     (case fn w of
        (Inr v, w') \<Rightarrow> (Inr v, w', tr @ [Attempt])
      | (Inl err, w') \<Rightarrow>
          (let stat = (case status err of None \<Rightarrow> 0 | Some n \<Rightarrow> n);
               msg = toLowerCase (toString err)
           in if isRetryable msg \<and> retries > 0
              then callWithRetry fn (retries - 1) (delay * 2) w'
                     (tr @ [Attempt, Warn stat delay, Sleep delay])
              else (Inl err, w', tr @ [Attempt])))"
  by pat_completeness auto
termination
  by (relation "measure (\<lambda>(fn, retries, delay, w, tr). nat retries)") auto

declare callWithRetry.simps [simp del]

text \<open>
  The classification in the words of the specification, and \<^verbatim>\<open>err.status || 0\<close>.
\<close>

definition transient :: "js_error \<Rightarrow> bool" where
  "transient err =
     (\<exists>marker \<in> set [''429'', ''503'', ''quota'', ''overloaded''].
        str_includes (toLowerCase (toString err)) marker)"

definition status_or_0 :: "js_error \<Rightarrow> int" where
  "status_or_0 err = (case status err of None \<Rightarrow> 0 | Some n \<Rightarrow> n)"

text \<open>
  A remote operation that plays back a script of outcomes, and three failures, to run
  the wrapper on examples.
\<close>

fun scripted :: "(js_error + 'a) list \<Rightarrow> (js_error + 'a) \<times> (js_error + 'a) list" where
  "scripted [] = (Inl \<lparr>status = None, toString = ''Error: script exhausted''\<rparr>, [])"
| "scripted (x # xs) = (x, xs)"

definition err429 :: js_error where
  "err429 = \<lparr>status = Some 429, toString = ''ApiError: 429 Too Many Requests''\<rparr>"

definition err503 :: js_error where
  "err503 = \<lparr>status = Some 503, toString = ''ApiError: The model is OVERLOADED''\<rparr>"

definition errKey :: js_error where
  "errKey = \<lparr>status = None, toString = ''Error: API_KEY_NOT_FOUND''\<rparr>"

subsection \<open>Parsing the discovery response\<close>

text \<open>
  \<^verbatim>\<open>String.prototype.split\<close> with a string separator: the pieces between the
  occurrences of the separator, found from left to right without overlap; with the
  empty separator, the characters.
\<close>

function split_from :: "string \<Rightarrow> string \<Rightarrow> string \<Rightarrow> string list" where
  "split_from sep cur [] = [cur]"
| "split_from sep cur (c # cs) =
     (if sep \<noteq> [] \<and> prefix sep (c # cs)
      then cur # split_from sep [] (drop (length sep) (c # cs))
      else split_from sep (cur @ [c]) cs)"
  by pat_completeness auto
termination
  by (relation "measure (\<lambda>(sep, cur, s). length s)") auto

definition js_split :: "string \<Rightarrow> string \<Rightarrow> string list" where
  "js_split s sep = (if sep = [] then map (\<lambda>c. [c]) s else split_from sep [] s)"

text \<open>
  White space (\<^verbatim>\<open>\s\<close> and \<^verbatim>\<open>trim\<close>) and line terminators (what \<^verbatim>\<open>.\<close> does not match),
  among the characters of the model, which are the code units below 256: tab, line
  feed, vertical tab, form feed, carriage return, space and the no-break space
  (160) are white space; line feed and carriage return are line terminators.
\<close>

definition is_space :: "char \<Rightarrow> bool" where
  "is_space c = (let n = of_char c :: nat in (9 \<le> n \<and> n \<le> 13) \<or> n = 32 \<or> n = 160)"

definition is_line_terminator :: "char \<Rightarrow> bool" where
  "is_line_terminator c = (let n = of_char c :: nat in n = 10 \<or> n = 13)"

definition trim :: "string \<Rightarrow> string" where
  "trim s = rev (dropWhile is_space (rev (dropWhile is_space s)))"

text \<open>
  \<^verbatim>\<open>section.match(/LABEL:\s*(.*)/i)\<close>, for a label of literal characters: the match
  starts at the first place where the label stands, letters compared without case; the
  white space after it (line breaks included) is skipped, and group 1 is the rest of
  the line reached. The result is group 1, or \<open>None\<close> for \<^verbatim>\<open>null\<close>.
\<close>

fun starts_with_ci :: "string \<Rightarrow> string \<Rightarrow> bool" where
  "starts_with_ci [] s = True"
| "starts_with_ci (l # ls) [] = False"
| "starts_with_ci (l # ls) (c # cs) = (lower_char l = lower_char c \<and> starts_with_ci ls cs)"

fun match_field :: "string \<Rightarrow> string \<Rightarrow> string option" where
  "match_field label [] = (if label = [] then Some [] else None)"
| "match_field label (c # cs) =
     (if starts_with_ci label (c # cs)
      then Some (takeWhile (\<lambda>x. \<not> is_line_terminator x)
                  (dropWhile is_space (drop (length label) (c # cs))))
      else match_field label cs)"

text \<open>
  The body of \<^verbatim>\<open>deepScanInternet\<close> from \<^verbatim>\<open>response.text\<close> to the array \<^verbatim>\<open>prompts\<close>: what
  \<^verbatim>\<open>forEach\<close> does with one section, and the whole loop over the sections that
  contain \<^verbatim>\<open>PROMPT:\<close>.
\<close>

record ImagePrompt =
  title :: string
  prompt :: string
  source :: string
  tags :: "string list option"

definition section_prompt :: "string \<Rightarrow> ImagePrompt option" where
  "section_prompt sec =
     (let titleMatch = match_field ''TITLE:'' sec;
          promptMatch = match_field ''PROMPT:'' sec;
          tagsMatch = match_field ''TAGS:'' sec
      in case promptMatch of
           None \<Rightarrow> None
         | Some p \<Rightarrow>
             Some \<lparr>title = (case titleMatch of Some t \<Rightarrow> trim t | None \<Rightarrow> ''Style Trace''),
                   prompt = trim p,
                   source = ''Global Crawl'',
                   tags = Some (case tagsMatch of
                                  Some g \<Rightarrow> map trim (js_split g '','')
                                | None \<Rightarrow> [''Web Source''])\<rparr>)"











definition nbsp :: string where
  "nbsp = [char_of (160 :: nat)]"

subsection \<open>The health probe\<close>

text \<open>
  \<^verbatim>\<open>testKeyAccess\<close>: without a key no call is made; otherwise the ping goes through the
  retry wrapper with its defaults, and a failure that comes out of it is classified as
  quota when its lowercased text contains \<^verbatim>\<open>429\<close> or \<^verbatim>\<open>quota\<close>. The probe never throws.
\<close>

record probe =
  success :: bool
  message :: string
  isQuota :: "bool option"
  details :: "string option"

definition testKeyAccess ::
  "string \<Rightarrow> ('w \<Rightarrow> (js_error + 'a) \<times> 'w) \<Rightarrow> 'w \<Rightarrow> probe \<times> 'w \<times> event list" where
  "testKeyAccess api_key ping w =
     (let key = trim api_key in
      if key = [] then
        (\<lparr>success = False, message = ''API Key Missing.'', isQuota = None, details = None\<rparr>, w, [])
      else
        (case callWithRetry ping 3 1000 w [] of
           (Inr v, w', tr) \<Rightarrow>
             (\<lparr>success = True, message = ''Neural Link Online'', isQuota = None, details = None\<rparr>,
              w', tr)
         | (Inl err, w', tr) \<Rightarrow>
             (let msg = toLowerCase (toString err);
                  quota = str_includes msg ''429'' \<or> str_includes msg ''quota''
              in (\<lparr>success = False,
                   message = (if quota then ''Quota Alert'' else ''Neural Static''),
                   isQuota = Some quota,
                   details = Some (toString err)\<rparr>, w', tr))))"

section \<open>Connection-health state machine (App.tsx)\<close>

text \<open>
  The state cells \<^verbatim>\<open>connection\<close>, \<^verbatim>\<open>cooldown\<close> and \<^verbatim>\<open>error\<close> of the application component;
  the five values of \<^verbatim>\<open>ConnectionStatus\<close> are written with a capital.
\<close>

datatype ConnectionStatus = Checking | Online | Offline | Error | Throttled

datatype error_type = Quota | Hard

record banner =
  msg :: string
  banner_details :: "string option"
  banner_type :: "error_type option"

record app =
  connection :: ConnectionStatus
  cooldown :: int
  error :: "banner option"

definition app_initial :: app where
  "app_initial = \<lparr>connection = Checking, cooldown = 0, error = None\<rparr>"

text \<open>
  The effect on \<^verbatim>\<open>[cooldown, connection]\<close>, run after every render in which one of the
  two changed. With a positive cooldown it arms the one-second interval and leaves
  the state; otherwise it sets a throttled connection to online.
\<close>

definition cooldown_effect :: "app \<Rightarrow> app" where
  "cooldown_effect s =
     (if cooldown s > 0 then s
      else if connection s = Throttled then s\<lparr>connection := Online\<rparr>
      else s)"

text \<open>
  \<^verbatim>\<open>checkHealth\<close>, before and after the \<^verbatim>\<open>await\<close> of the probe, and the \<^verbatim>\<open>catch\<close> block of
  \<^verbatim>\<open>handleSearch\<close>. \<^verbatim>\<open>res.isQuota\<close> is absent (falsy) when the key is missing.
\<close>

definition checkHealth_begin :: "app \<Rightarrow> app" where
  "checkHealth_begin s = s\<lparr>connection := Checking\<rparr>"

definition checkHealth_done :: "probe \<Rightarrow> app \<Rightarrow> app" where
  "checkHealth_done res s =
     (if success res then s\<lparr>connection := Online, error := None\<rparr>
      else s\<lparr>connection := (if isQuota res = Some True then Throttled else Error),
             error := Some \<lparr>msg = message res, banner_details = details res,
                             banner_type = Some (if isQuota res = Some True then Quota else Hard)\<rparr>\<rparr>)"

definition handleSearch_catch :: "js_error \<Rightarrow> app \<Rightarrow> app" where
  "handleSearch_catch err s =
     (let errMsg = toLowerCase (toString err) in
      if str_includes errMsg ''429'' \<or> str_includes errMsg ''quota''
      then s\<lparr>cooldown := 30,
             error := Some \<lparr>msg = ''Neural Overload'',
               banner_details = Some ''The API endpoint is heavily throttled. Attempting automatic recovery...'',
               banner_type = Some Quota\<rparr>\<rparr>
      else s\<lparr>error := Some \<lparr>msg = ''Link Interrupted'', banner_details = Some (toString err),
               banner_type = Some Hard\<rparr>\<rparr>)"

text \<open>
  What happens to the component: a probe starts, a probe ends with a result, a
  discovery call fails (\<^verbatim>\<open>handleSearch\<close> returns at once while the cooldown is
  positive), or a second passes (the interval exists only while the cooldown is
  positive, and its callback is \<^verbatim>\<open>setCooldown(c => c - 1)\<close>). Each is followed by the
  render and its effect.
\<close>

datatype app_event = ProbeStart | ProbeDone probe | SearchFailed js_error | Second

fun app_step :: "app_event \<Rightarrow> app \<Rightarrow> app" where
  "app_step ProbeStart s = cooldown_effect (checkHealth_begin s)"
| "app_step (ProbeDone res) s = cooldown_effect (checkHealth_done res s)"
| "app_step (SearchFailed err) s =
     (if cooldown s > 0 then s else cooldown_effect (handleSearch_catch err s))"
| "app_step Second s =
     (if cooldown s > 0 then cooldown_effect (s\<lparr>cooldown := cooldown s - 1\<rparr>) else s)"

definition app_run :: "app_event list \<Rightarrow> app \<Rightarrow> app" where
  "app_run evs s = fold app_step evs s"

text \<open>The result of a probe whose four attempts are all answered with status 429.\<close>

definition quota_probe :: probe where
  "quota_probe =
     fst (testKeyAccess ''key'' scripted
       [Inl err429, Inl err429, Inl err429, Inl err429 :: js_error + string])"

section \<open>Properties of the history engine\<close>

lemma js_index_Some [simp]: "i < length xs \<Longrightarrow> js_index xs i = Some (xs ! i)"
  by (simp add: js_index_def)

lemma js_index_None [simp]: "\<not> i < length xs \<Longrightarrow> js_index xs i = None"
  by (simp add: js_index_def)

lemma run_append: "run (as @ bs) s = (case run as s of None \<Rightarrow> None | Some s' \<Rightarrow> run bs s')"
  by (induction as arbitrary: s) (auto split: option.splits)

lemma run_edit: "run (edit d) s = Some (s\<lparr>adjustments := d\<rparr>)"
  by (simp add: edit_def handleAdjustmentChange_def)

lemma valid_pushToHistory:
  "length (history s) \<le> 25 \<Longrightarrow> valid (pushToHistory v s)"
  by (auto simp: valid_def pushToHistory_def Let_def)

lemma entry_pushToHistory:
  "js_index (history (pushToHistory v s)) (historyIndex (pushToHistory v s)) = Some v"
  by (auto simp: pushToHistory_def Let_def js_index_def nth_append nth_tl last_conv_nth)

lemma adjustments_pushToHistory: "adjustments (pushToHistory v s) = adjustments s"
  by (simp add: pushToHistory_def Let_def)

lemma valid_handleAdjustmentChange: "valid s \<Longrightarrow> valid (handleAdjustmentChange k v s)"
  by (simp add: valid_def handleAdjustmentChange_def)

lemma valid_capacity: "valid s \<Longrightarrow> length (history s) \<le> 25"
  by (simp add: valid_def)

lemma valid_handleAdjustmentEnd: "valid s \<Longrightarrow> valid (handleAdjustmentEnd s)"
  by (simp add: handleAdjustmentEnd_def valid_pushToHistory valid_capacity)

lemma settled_handleAdjustmentEnd: "settled (handleAdjustmentEnd s)"
  by (auto simp: handleAdjustmentEnd_def settled_def entry_pushToHistory adjustments_pushToHistory
      split: option.splits)

lemma valid_handleReset: "valid s \<Longrightarrow> valid (handleReset s)"
  by (simp add: handleReset_def valid_pushToHistory valid_capacity)

lemma settled_handleReset: "settled (handleReset s)"
  by (simp add: handleReset_def settled_def entry_pushToHistory adjustments_pushToHistory)

lemma undo_valid:
  "valid s \<Longrightarrow> \<exists>s'. undo s = Some s' \<and> valid s' \<and> (settled s \<or> 0 < historyIndex s \<longrightarrow> settled s')"
  by (auto simp: undo_def valid_def settled_def Let_def)

lemma redo_valid: "valid s \<Longrightarrow> valid (redo s)"
  by (auto simp: redo_def valid_def Let_def)

lemma redo_settled: "settled s \<Longrightarrow> settled (redo s)"
  by (auto simp: redo_def settled_def Let_def)

lemma undo_moved:
  "valid s \<Longrightarrow> undo s = Some u \<Longrightarrow> historyIndex u \<noteq> historyIndex s \<Longrightarrow> settled u"
  by (auto simp: undo_def valid_def settled_def Let_def split: if_splits)

lemma undo_stays:
  "undo s = Some u \<Longrightarrow> historyIndex u = historyIndex s \<Longrightarrow> u = s"
  by (auto simp: undo_def Let_def split: if_splits option.splits)

lemma redo_moved: "historyIndex (redo s) \<noteq> historyIndex s \<Longrightarrow> settled (redo s)"
  by (auto simp: redo_def settled_def Let_def split: if_splits)

lemma redo_stays: "historyIndex (redo s) = historyIndex s \<Longrightarrow> redo s = s"
  by (auto simp: redo_def Let_def split: if_splits option.splits)

lemma perform_invariant:
  assumes "valid s" and "\<not> p \<longrightarrow> settled s"
  shows "\<exists>s'. perform a s = Some s' \<and> valid s' \<and> (\<not> leaves_edit p a s s' \<longrightarrow> settled s')"
proof (cases a)
  case (SetChannel k v)
  then show ?thesis
    using assms(1) by (simp add: valid_handleAdjustmentChange)
next
  case Commit
  then show ?thesis
    using assms(1) by (simp add: valid_handleAdjustmentEnd settled_handleAdjustmentEnd)
next
  case Undo
  obtain u where u: "undo s = Some u" "valid u"
    using undo_valid [OF assms(1)] by blast
  have "settled u" if "\<not> (p \<and> historyIndex u = historyIndex s)"
  proof (cases "historyIndex u = historyIndex s")
    case True
    with that undo_stays [OF u(1)] assms(2) show ?thesis by simp
  next
    case False
    then show ?thesis
      using undo_moved [OF assms(1) u(1)] by simp
  qed
  with u Undo show ?thesis by simp
next
  case Redo
  have "settled (redo s)" if "\<not> (p \<and> historyIndex (redo s) = historyIndex s)"
  proof (cases "historyIndex (redo s) = historyIndex s")
    case True
    with that redo_stays [of s] assms(2) show ?thesis by simp
  next
    case False
    then show ?thesis by (rule redo_moved)
  qed
  with Redo show ?thesis
    using assms(1) by (simp add: redo_valid)
next
  case Reset
  then show ?thesis
    using assms(1) by (simp add: valid_handleReset settled_handleReset)
qed

lemma run_invariant:
  "valid s \<Longrightarrow> (\<not> p \<longrightarrow> settled s) \<Longrightarrow>
   \<exists>s'. run acts s = Some s' \<and> valid s' \<and> (\<not> in_progress p acts s \<longrightarrow> settled s')"
proof (induction acts arbitrary: s p)
  case Nil
  then show ?case by simp
next
  case (Cons a acts)
  obtain u where u: "perform a s = Some u" "valid u" "\<not> leaves_edit p a s u \<longrightarrow> settled u"
    using perform_invariant [OF Cons.prems] by blast
  from Cons.IH [OF u(2,3)] u(1) show ?case
    by simp
qed


lemma valid_initial: "valid initial"
  by (simp add: valid_def initial_def)

lemma settled_initial: "settled initial"
  by (simp add: settled_def initial_def)

lemma redo_at_end: "historyIndex s + 1 = length (history s) \<Longrightarrow> (redo ^^ n) s = s"
  by (induction n) (simp_all add: redo_def)

lemma last_pushToHistory: "last (history (pushToHistory v s)) = v"
proof (cases "25 < length (take (historyIndex s + 1) (history s) @ [v])")
  case True
  then have "take (historyIndex s + 1) (history s) \<noteq> []"
    by auto
  with True show ?thesis
    by (simp add: pushToHistory_def Let_def)
next
  case False
  then show ?thesis
    by (auto simp: pushToHistory_def Let_def)
qed

lemmas ex_defs = ex_A_def ex_B_def ex_C_def ex_D_def DEFAULT_ADJUSTMENTS_def

subsection \<open>Capacity and position\<close>

text \<open>
  Claim C2. Whatever sequence of operations is applied to the initial state (commits,
  with any slider movements, undos, redos and resets between them), the run ends in a
  state whose log has at most 25 entries and whose position is an index of the log.
  When truncating and appending gives more than 25 entries, the first entry is dropped
  and the position is the last index; from a valid state that is index 24 of 25.
\<close>

theorem history_bounded:
  "(\<exists>s. run acts initial = Some s \<and> length (history s) \<le> 25 \<and> historyIndex s < length (history s)) \<and>
   (\<forall>s v. length (take (historyIndex s + 1) (history s) @ [v]) > 25 \<longrightarrow>
      history (pushToHistory v s) = tl (take (historyIndex s + 1) (history s) @ [v]) \<and>
      historyIndex (pushToHistory v s) = length (history (pushToHistory v s)) - 1 \<and>
      last (history (pushToHistory v s)) = v \<and>
      (valid s \<longrightarrow> length (history (pushToHistory v s)) = 25 \<and> historyIndex (pushToHistory v s) = 24))"
proof (intro conjI allI impI)
  show "\<exists>s. run acts initial = Some s \<and> length (history s) \<le> 25 \<and> historyIndex s < length (history s)"
    using run_invariant [OF valid_initial, of False acts] settled_initial
    by (auto simp: valid_def)
next
  fix s :: editor and v
  assume full: "25 < length (take (historyIndex s + 1) (history s) @ [v])"
  then show "history (pushToHistory v s) = tl (take (historyIndex s + 1) (history s) @ [v])"
    by (simp add: pushToHistory_def Let_def)
  show "historyIndex (pushToHistory v s) = length (history (pushToHistory v s)) - 1"
    by (simp add: pushToHistory_def Let_def)
  from full have "take (historyIndex s + 1) (history s) \<noteq> []"
    by auto
  with full show "last (history (pushToHistory v s)) = v"
    by (simp add: pushToHistory_def Let_def)
  assume "valid s"
  with full show "length (history (pushToHistory v s)) = 25"
    by (auto simp: pushToHistory_def Let_def valid_def)
  from full \<open>valid s\<close> show "historyIndex (pushToHistory v s) = 24"
    by (auto simp: pushToHistory_def Let_def valid_def)
qed


theorem history_bounded_witness:
  "(\<exists>s. run (gestures 30) initial = Some s \<and> length (history s) \<le> 25 \<and>
        historyIndex s < length (history s)) \<and>
   map_option (\<lambda>s. (length (history s), historyIndex s, map brightness (history s)))
       (run (gestures 30) initial) =
     Some (25, 24, [6, 7, 8, 9, 10, 11, 12, 13, 14, 15, 16, 17, 18, 19, 20, 21, 22, 23, 24, 25,
       26, 27, 28, 29, 30]) \<and>
   history (pushToHistory DEFAULT_ADJUSTMENTS
      \<lparr>adjustments = DEFAULT_ADJUSTMENTS,
       history = map (\<lambda>i. DEFAULT_ADJUSTMENTS\<lparr>hue := real i\<rparr>) [0..<25], historyIndex = 24\<rparr>) =
     map (\<lambda>i. DEFAULT_ADJUSTMENTS\<lparr>hue := real i\<rparr>) [1..<25] @ [DEFAULT_ADJUSTMENTS] \<and>
   historyIndex (pushToHistory DEFAULT_ADJUSTMENTS
      \<lparr>adjustments = DEFAULT_ADJUSTMENTS,
       history = map (\<lambda>i. DEFAULT_ADJUSTMENTS\<lparr>hue := real i\<rparr>) [0..<25], historyIndex = 24\<rparr>) = 24"
proof -
  let ?s = "\<lparr>adjustments = DEFAULT_ADJUSTMENTS,
       history = map (\<lambda>i. DEFAULT_ADJUSTMENTS\<lparr>hue := real i\<rparr>) [0..<25], historyIndex = 24\<rparr>"
  have full: "25 < length (take (historyIndex ?s + 1) (history ?s) @ [DEFAULT_ADJUSTMENTS])"
    by simp
  have v: "valid ?s"
    by (simp add: valid_def)
  have tl: "tl (take (historyIndex ?s + 1) (history ?s) @ [DEFAULT_ADJUSTMENTS]) =
      map (\<lambda>i. DEFAULT_ADJUSTMENTS\<lparr>hue := real i\<rparr>) [1..<25] @ [DEFAULT_ADJUSTMENTS]"
    by code_simp
  have g: "map_option (\<lambda>s. (length (history s), historyIndex s, map brightness (history s)))
       (run (gestures 30) initial) =
     Some (25, 24, [6, 7, 8, 9, 10, 11, 12, 13, 14, 15, 16, 17, 18, 19, 20, 21, 22, 23, 24, 25,
       26, 27, 28, 29, 30])"
    by code_simp
  from history_bounded [of "gestures 30"] full v tl
  have "(\<exists>s. run (gestures 30) initial = Some s \<and> length (history s) \<le> 25 \<and>
        historyIndex s < length (history s)) \<and>
      history (pushToHistory DEFAULT_ADJUSTMENTS ?s) =
        map (\<lambda>i. DEFAULT_ADJUSTMENTS\<lparr>hue := real i\<rparr>) [1..<25] @ [DEFAULT_ADJUSTMENTS] \<and>
      historyIndex (pushToHistory DEFAULT_ADJUSTMENTS ?s) = 24"
    by metis
  with g show ?thesis
    by blast
qed

subsection \<open>Committing truncates the redo branch\<close>

text \<open>
  Claim C3. When the working vector differs from the entry at the position, the end of a
  gesture keeps the entries up to the position, appends the working vector (dropping the
  first entry when 25 were kept) and moves the position to the new last entry, which is
  the working vector. For the log \<open>[A, B, C]\<close> at position 2: undo gives position 1 with
  working vector \<open>B\<close>; bringing the working vector to a \<open>D\<close> other than \<open>B\<close> and
  committing gives the log \<open>[A, B, D]\<close> at position 2, and no number of redos changes that
  state, so the entry \<open>C\<close> is gone.
\<close>

theorem commit_truncates:
  fixes s :: editor and A B C D :: ImageAdjustments
  shows
  "(js_index (history s) (historyIndex s) \<noteq> Some (adjustments s) \<longrightarrow>
      history (handleAdjustmentEnd s) =
        (if length (take (historyIndex s + 1) (history s)) < 25
         then take (historyIndex s + 1) (history s) @ [adjustments s]
         else tl (take (historyIndex s + 1) (history s) @ [adjustments s])) \<and>
      historyIndex (handleAdjustmentEnd s) = length (history (handleAdjustmentEnd s)) - 1 \<and>
      last (history (handleAdjustmentEnd s)) = adjustments s \<and>
      adjustments (handleAdjustmentEnd s) = adjustments s) \<and>
   (D \<noteq> B \<longrightarrow>
      run [Undo] \<lparr>adjustments = C, history = [A, B, C], historyIndex = 2\<rparr> =
        Some \<lparr>adjustments = B, history = [A, B, C], historyIndex = 1\<rparr> \<and>
      run (Undo # edit D @ [Commit]) \<lparr>adjustments = C, history = [A, B, C], historyIndex = 2\<rparr> =
        Some \<lparr>adjustments = D, history = [A, B, D], historyIndex = 2\<rparr> \<and>
      (\<forall>n. (redo ^^ n) \<lparr>adjustments = D, history = [A, B, D], historyIndex = 2\<rparr> =
        \<lparr>adjustments = D, history = [A, B, D], historyIndex = 2\<rparr>))"
proof (intro conjI impI allI)
  assume differs: "js_index (history s) (historyIndex s) \<noteq> Some (adjustments s)"
  then have push: "handleAdjustmentEnd s = pushToHistory (adjustments s) s"
    by (auto simp: handleAdjustmentEnd_def split: option.splits)
  show "history (handleAdjustmentEnd s) =
        (if length (take (historyIndex s + 1) (history s)) < 25
         then take (historyIndex s + 1) (history s) @ [adjustments s]
         else tl (take (historyIndex s + 1) (history s) @ [adjustments s]))"
    unfolding push by (auto simp: pushToHistory_def Let_def)
  show "historyIndex (handleAdjustmentEnd s) = length (history (handleAdjustmentEnd s)) - 1"
    unfolding push by (simp add: pushToHistory_def Let_def)
  show "last (history (handleAdjustmentEnd s)) = adjustments s"
    unfolding push by (rule last_pushToHistory)
  show "adjustments (handleAdjustmentEnd s) = adjustments s"
    unfolding push by (simp add: pushToHistory_def Let_def)
next
  show "run [Undo] \<lparr>adjustments = C, history = [A, B, C], historyIndex = 2\<rparr> =
        Some \<lparr>adjustments = B, history = [A, B, C], historyIndex = 1\<rparr>"
    by (simp add: undo_def)
next
  assume "D \<noteq> B"
  then show "run (Undo # edit D @ [Commit]) \<lparr>adjustments = C, history = [A, B, C], historyIndex = 2\<rparr> =
        Some \<lparr>adjustments = D, history = [A, B, D], historyIndex = 2\<rparr>"
    by (simp add: undo_def run_append run_edit handleAdjustmentEnd_def pushToHistory_def)
next
  fix n
  show "(redo ^^ n) \<lparr>adjustments = D, history = [A, B, D], historyIndex = 2\<rparr> =
        \<lparr>adjustments = D, history = [A, B, D], historyIndex = 2\<rparr>"
    by (rule redo_at_end) simp
qed

theorem commit_truncates_witness:
  "history (handleAdjustmentEnd \<lparr>adjustments = ex_D, history = [ex_A, ex_B, ex_C], historyIndex = 1\<rparr>) =
     [ex_A, ex_B, ex_D] \<and>
   historyIndex (handleAdjustmentEnd \<lparr>adjustments = ex_D, history = [ex_A, ex_B, ex_C], historyIndex = 1\<rparr>) = 2 \<and>
   run [Undo] \<lparr>adjustments = ex_C, history = [ex_A, ex_B, ex_C], historyIndex = 2\<rparr> =
     Some \<lparr>adjustments = ex_B, history = [ex_A, ex_B, ex_C], historyIndex = 1\<rparr> \<and>
   run (Undo # edit ex_D @ [Commit]) \<lparr>adjustments = ex_C, history = [ex_A, ex_B, ex_C], historyIndex = 2\<rparr> =
     Some \<lparr>adjustments = ex_D, history = [ex_A, ex_B, ex_D], historyIndex = 2\<rparr> \<and>
   (redo ^^ 3) \<lparr>adjustments = ex_D, history = [ex_A, ex_B, ex_D], historyIndex = 2\<rparr> =
     \<lparr>adjustments = ex_D, history = [ex_A, ex_B, ex_D], historyIndex = 2\<rparr> \<and>
   ex_C \<notin> set [ex_A, ex_B, ex_D]"
proof -
  have ne: "ex_D \<noteq> ex_B" "ex_C \<notin> set [ex_A, ex_B, ex_D]"
    by (simp_all add: ex_defs)
  have differs: "js_index (history \<lparr>adjustments = ex_D, history = [ex_A, ex_B, ex_C], historyIndex = 1\<rparr>)
      (historyIndex \<lparr>adjustments = ex_D, history = [ex_A, ex_B, ex_C], historyIndex = 1\<rparr>) \<noteq>
      Some (adjustments \<lparr>adjustments = ex_D, history = [ex_A, ex_B, ex_C], historyIndex = 1\<rparr>)"
    using ne by simp
  from commit_truncates [where s = "\<lparr>adjustments = ex_D, history = [ex_A, ex_B, ex_C], historyIndex = 1\<rparr>"
      and A = ex_A and B = ex_B and C = ex_C and D = ex_D] ne differs
  show ?thesis by simp
qed

subsection \<open>Undo and redo leave the log alone\<close>

text \<open>
  Claim C10. Undo and redo leave the log as it is, entry by entry: the state after differs
  from the state before in the position and the working vector only. (Undo has a result
  whenever the position is an index of the log.)
\<close>

theorem undo_redo_frame:
  "(historyIndex s < length (history s) \<longrightarrow> undo s \<noteq> None) \<and>
   (\<forall>s'. undo s = Some s' \<longrightarrow>
      history s' = history s \<and> s' = s\<lparr>historyIndex := historyIndex s', adjustments := adjustments s'\<rparr>) \<and>
   history (redo s) = history s \<and>
   redo s = s\<lparr>historyIndex := historyIndex (redo s), adjustments := adjustments (redo s)\<rparr>"
  by (auto simp: undo_def redo_def Let_def split: option.splits)

theorem undo_redo_frame_witness:
  "undo \<lparr>adjustments = ex_C, history = [ex_A, ex_B, ex_C], historyIndex = 2\<rparr> =
     Some \<lparr>adjustments = ex_B, history = [ex_A, ex_B, ex_C], historyIndex = 1\<rparr> \<and>
   history \<lparr>adjustments = ex_B, history = [ex_A, ex_B, ex_C], historyIndex = 1\<rparr> =
     history \<lparr>adjustments = ex_C, history = [ex_A, ex_B, ex_C], historyIndex = 2\<rparr> \<and>
   redo \<lparr>adjustments = ex_B, history = [ex_A, ex_B, ex_C], historyIndex = 1\<rparr> =
     \<lparr>adjustments = ex_C, history = [ex_A, ex_B, ex_C], historyIndex = 2\<rparr> \<and>
   history (redo \<lparr>adjustments = ex_B, history = [ex_A, ex_B, ex_C], historyIndex = 1\<rparr>) =
     [ex_A, ex_B, ex_C]"
proof -
  have u: "undo \<lparr>adjustments = ex_C, history = [ex_A, ex_B, ex_C], historyIndex = 2\<rparr> =
     Some \<lparr>adjustments = ex_B, history = [ex_A, ex_B, ex_C], historyIndex = 1\<rparr>"
    by (simp add: undo_def)
  have r: "redo \<lparr>adjustments = ex_B, history = [ex_A, ex_B, ex_C], historyIndex = 1\<rparr> =
     \<lparr>adjustments = ex_C, history = [ex_A, ex_B, ex_C], historyIndex = 2\<rparr>"
    by (simp add: redo_def)
  from undo_redo_frame [of "\<lparr>adjustments = ex_C, history = [ex_A, ex_B, ex_C], historyIndex = 2\<rparr>"]
    undo_redo_frame [of "\<lparr>adjustments = ex_B, history = [ex_A, ex_B, ex_C], historyIndex = 1\<rparr>"] u r
  show ?thesis by simp
qed

subsection \<open>Undo followed by redo\<close>

text \<open>
  Claim C4 does not hold for every state with two entries: after one committed edit and
  an undo the log has two entries and the position is 0. There undo does nothing and
  redo moves forward, so the working vector changes from the default vector to the
  committed one.
\<close>

theorem undo_redo_counterexample:
  "run [SetChannel Brightness 150, Commit, Undo] initial =
     Some \<lparr>adjustments = ex_A, history = [ex_A, ex_B], historyIndex = 0\<rparr> \<and>
   2 \<le> length (history \<lparr>adjustments = ex_A, history = [ex_A, ex_B], historyIndex = 0\<rparr>) \<and>
   undo \<lparr>adjustments = ex_A, history = [ex_A, ex_B], historyIndex = 0\<rparr> =
     Some \<lparr>adjustments = ex_A, history = [ex_A, ex_B], historyIndex = 0\<rparr> \<and>
   adjustments (redo \<lparr>adjustments = ex_A, history = [ex_A, ex_B], historyIndex = 0\<rparr>) = ex_B \<and>
   ex_B \<noteq> adjustments \<lparr>adjustments = ex_A, history = [ex_A, ex_B], historyIndex = 0\<rparr>"
  by (simp add: initial_def handleAdjustmentChange_def handleAdjustmentEnd_def pushToHistory_def
      undo_def redo_def ex_defs)

text \<open>
  Claim C4, amended. For every state whose position is at least 1 (so the log has at
  least 2 entries) and whose working vector is the entry at the position, undo followed
  by redo gives back the working vector, and in fact the whole state.
\<close>

theorem undo_then_redo:
  assumes "0 < historyIndex s" and "settled s"
  shows "\<exists>u. undo s = Some u \<and> adjustments (redo u) = adjustments s \<and> redo u = s \<and>
    2 \<le> length (history s)"
  using assms by (auto simp: undo_def redo_def settled_def js_index_def Let_def split: if_splits)

theorem undo_then_redo_witness:
  "0 < historyIndex \<lparr>adjustments = ex_C, history = [ex_A, ex_B, ex_C], historyIndex = 2\<rparr> \<and>
   settled \<lparr>adjustments = ex_C, history = [ex_A, ex_B, ex_C], historyIndex = 2\<rparr> \<and>
   (\<exists>u. undo \<lparr>adjustments = ex_C, history = [ex_A, ex_B, ex_C], historyIndex = 2\<rparr> = Some u \<and>
      adjustments (redo u) = ex_C)"
proof -
  have h: "0 < historyIndex \<lparr>adjustments = ex_C, history = [ex_A, ex_B, ex_C], historyIndex = 2\<rparr>"
    "settled \<lparr>adjustments = ex_C, history = [ex_A, ex_B, ex_C], historyIndex = 2\<rparr>"
    by (simp_all add: settled_def)
  from undo_then_redo [OF h] h show ?thesis by auto
qed

subsection \<open>The working vector and the entry at the position\<close>




text \<open>
  An undo that does nothing leaves the edit in progress, and one that moves the
  position ends it.
\<close>

lemma edit_stays_in_progress:
  "in_progress False [SetChannel Brightness 150, Undo] initial \<and>
   \<not> in_progress False [SetChannel Brightness 150, Commit, SetChannel Hue 45, Undo] initial"
  by (simp add: initial_def handleAdjustmentChange_def handleAdjustmentEnd_def
      pushToHistory_def undo_def ex_defs)

section \<open>Properties of the filter description\<close>

lemma count_spaces_append:
  "count_list (xs @ ys) c = count_list xs c + count_list ys c"
  by (induction xs) simp_all

lemma count_no_space: "c \<notin> set xs \<Longrightarrow> count_list xs c = 0"
  by (induction xs) auto

lemma digits_no_space: "CHR '' '' \<notin> set (digits n)"
proof (induction n rule: digits.induct)
  case (1 n)
  have d: "char_of (48 + k) \<noteq> CHR '' ''" if "k < 10" for k :: nat
  proof
    assume "char_of (48 + k) = CHR '' ''"
    then have "of_char (char_of (48 + k)) = (of_char (CHR '' '') :: nat)"
      by simp
    with that show False
      by simp
  qed
  show ?case
  proof (cases "n < 10")
    case True
    then show ?thesis
      using d [of n] by (subst digits.simps) simp
  next
    case False
    then show ?thesis
      using "1.IH" d [of "n mod 10"] by (subst digits.simps) simp
  qed
qed

lemma integral_no_space: "CHR '' '' \<notin> set (integral x)"
  by (simp add: integral_def digits_no_space)

subsection \<open>Rounding to a double\<close>













subsection \<open>Coupling rules\<close>



subsection \<open>Shape of the string\<close>

text \<open>
  Claim C9. With sharpness at most 50 the description is the first five terms, all
  non-empty, joined by single spaces and followed by one more space, the sixth element
  being the empty string. With sharpness above 50 it is six non-empty terms joined by
  single spaces and does not end with a space. When the printed numbers hold no space
  the description has exactly five spaces in both cases. The shape depends neither on
  the rounding nor on the printing of the numbers; the example is run with whole
  numbers, on which no rounding takes place.
\<close>

theorem filter_shape:
  "(sharpness a \<le> 50 \<longrightarrow>
      filterString fl num a = js_join '' '' (take 5 (filterTerms fl num a)) @ '' '' \<and>
      length (take 5 (filterTerms fl num a)) = 5 \<and>
      (\<forall>t \<in> set (take 5 (filterTerms fl num a)). t \<noteq> []) \<and>
      drop 5 (filterTerms fl num a) = [[]]) \<and>
   (sharpness a > 50 \<longrightarrow>
      filterString fl num a = js_join '' '' (filterTerms fl num a) \<and>
      length (filterTerms fl num a) = 6 \<and>
      (\<forall>t \<in> set (filterTerms fl num a). t \<noteq> []) \<and>
      last (filterString fl num a) \<noteq> CHR '' '') \<and>
   ((\<forall>x. CHR '' '' \<notin> set (num x)) \<longrightarrow> count_list (filterString fl num a) (CHR '' '') = 5)"
proof (intro conjI impI)
  assume low: "sharpness a \<le> 50"
  then show "filterString fl num a = js_join '' '' (take 5 (filterTerms fl num a)) @ '' ''"
    by (simp add: filterString_def filterTerms_def)
  show "length (take 5 (filterTerms fl num a)) = 5"
    by (simp add: filterTerms_def)
  show "\<forall>t \<in> set (take 5 (filterTerms fl num a)). t \<noteq> []"
    by (simp add: filterTerms_def)
  from low show "drop 5 (filterTerms fl num a) = [[]]"
    by (simp add: filterTerms_def)
next
  assume high: "sharpness a > 50"
  show "filterString fl num a = js_join '' '' (filterTerms fl num a)"
    by (simp add: filterString_def)
  show "length (filterTerms fl num a) = 6"
    by (simp add: filterTerms_def)
  from high show "\<forall>t \<in> set (filterTerms fl num a). t \<noteq> []"
    by (simp add: filterTerms_def)
  from high show "last (filterString fl num a) \<noteq> CHR '' ''"
    by (simp add: filterString_def filterTerms_def)
next
  assume "\<forall>x. CHR '' '' \<notin> set (num x)"
  then have "\<And>x. count_list (num x) (CHR '' '') = 0"
    by (simp add: count_no_space)
  then show "count_list (filterString fl num a) (CHR '' '') = 5"
    by (simp add: filterString_def filterTerms_def count_spaces_append)
qed


theorem filter_shape_witness:
  "sharpness (DEFAULT_ADJUSTMENTS\<lparr>sharpness := 40\<rparr>) \<le> 50 \<and>
   filterString (\<lambda>x. x) integral (DEFAULT_ADJUSTMENTS\<lparr>sharpness := 40\<rparr>) =
     js_join '' '' (take 5 (filterTerms (\<lambda>x. x) integral (DEFAULT_ADJUSTMENTS\<lparr>sharpness := 40\<rparr>))) @ '' '' \<and>
   filterString (\<lambda>x. x) integral (DEFAULT_ADJUSTMENTS\<lparr>sharpness := 40\<rparr>) =
     ''brightness(100%) contrast(108%) saturate(100%) opacity(100%) hue-rotate(0deg) '' \<and>
   sharpness (DEFAULT_ADJUSTMENTS\<lparr>sharpness := 80\<rparr>) > 50 \<and>
   last (filterString (\<lambda>x. x) integral (DEFAULT_ADJUSTMENTS\<lparr>sharpness := 80\<rparr>)) \<noteq> CHR '' '' \<and>
   count_list (filterString (\<lambda>x. x) integral (DEFAULT_ADJUSTMENTS\<lparr>sharpness := 40\<rparr>)) (CHR '' '') = 5 \<and>
   count_list (filterString (\<lambda>x. x) integral (DEFAULT_ADJUSTMENTS\<lparr>sharpness := 80\<rparr>)) (CHR '' '') = 5"
proof -
  have low: "sharpness (DEFAULT_ADJUSTMENTS\<lparr>sharpness := 40\<rparr>) \<le> 50"
    and high: "sharpness (DEFAULT_ADJUSTMENTS\<lparr>sharpness := 80\<rparr>) > 50"
    by simp_all
  have e40: "filterString (\<lambda>x. x) integral (DEFAULT_ADJUSTMENTS\<lparr>sharpness := 40\<rparr>) =
     ''brightness(100%) contrast(108%) saturate(100%) opacity(100%) hue-rotate(0deg) ''"
    by code_simp
  have ns: "\<forall>x. CHR '' '' \<notin> set (integral x)"
    by (simp add: integral_no_space)
  from filter_shape [where a = "DEFAULT_ADJUSTMENTS\<lparr>sharpness := 40\<rparr>" and fl = "\<lambda>x. x" and num = integral]
    filter_shape [where a = "DEFAULT_ADJUSTMENTS\<lparr>sharpness := 80\<rparr>" and fl = "\<lambda>x. x" and num = integral] low high ns e40
  show ?thesis
    by blast
qed

section \<open>Properties of the retry wrapper\<close>

lemma transient_isRetryable: "transient err = isRetryable (toLowerCase (toString err))"
  by (simp add: transient_def isRetryable_def)

lemma callWithRetry_success:
  "fn w = (Inr v, w') \<Longrightarrow> callWithRetry fn retries delay w tr = (Inr v, w', tr @ [Attempt])"
  by (subst callWithRetry.simps) simp

lemma callWithRetry_retry:
  "fn w = (Inl e, w') \<Longrightarrow> transient e \<Longrightarrow> retries > 0 \<Longrightarrow>
   callWithRetry fn retries delay w tr =
     callWithRetry fn (retries - 1) (2 * delay) w' (tr @ [Attempt, Warn (status_or_0 e) delay, Sleep delay])"
  by (subst callWithRetry.simps) (simp add: transient_isRetryable status_or_0_def mult.commute)

lemma callWithRetry_propagate:
  "fn w = (Inl e, w') \<Longrightarrow> \<not> transient e \<or> retries \<le> 0 \<Longrightarrow>
   callWithRetry fn retries delay w tr = (Inl e, w', tr @ [Attempt])"
  by (subst callWithRetry.simps) (auto simp: transient_isRetryable)

text \<open>
  Claim C1. With the default budget 3 and delay 1000: two failures whose lowercased text
  contains one of the markers 429, 503, quota, overloaded, followed by a success, give
  that success after exactly three calls and two waits, of 1000 and of 2000
  milliseconds. In general a transient failure with a positive budget is followed by a
  wait of the current delay and a retry with the budget lowered by one and the delay
  doubled; a failure that is not transient, or one met with no budget left, is
  returned as it was thrown, with no wait and no further call; with the default budget a
  fourth failure is returned after waits of 1000, 2000 and 4000.
\<close>

theorem retry_policy:
  fixes fn :: "'w \<Rightarrow> (js_error + 'a) \<times> 'w"
  shows
  "(\<forall>e1 e2 w1 w2 w3 v.
      fn w = (Inl e1, w1) \<and> transient e1 \<and> fn w1 = (Inl e2, w2) \<and> transient e2 \<and>
      fn w2 = (Inr v, w3) \<longrightarrow>
      callWithRetry fn 3 1000 w [] =
        (Inr v, w3,
         [Attempt, Warn (status_or_0 e1) 1000, Sleep 1000,
          Attempt, Warn (status_or_0 e2) 2000, Sleep 2000, Attempt])) \<and>
   (\<forall>e w'. fn w = (Inl e, w') \<and> transient e \<and> retries > 0 \<longrightarrow>
      callWithRetry fn retries delay w tr =
        callWithRetry fn (retries - 1) (2 * delay) w'
          (tr @ [Attempt, Warn (status_or_0 e) delay, Sleep delay])) \<and>
   (\<forall>e w'. fn w = (Inl e, w') \<and> (\<not> transient e \<or> retries \<le> 0) \<longrightarrow>
      callWithRetry fn retries delay w tr = (Inl e, w', tr @ [Attempt])) \<and>
   (\<forall>e1 e2 e3 e4 w1 w2 w3 w4.
      fn w = (Inl e1, w1) \<and> transient e1 \<and> fn w1 = (Inl e2, w2) \<and> transient e2 \<and>
      fn w2 = (Inl e3, w3) \<and> transient e3 \<and> fn w3 = (Inl e4, w4) \<longrightarrow>
      callWithRetry fn 3 1000 w [] =
        (Inl e4, w4,
         [Attempt, Warn (status_or_0 e1) 1000, Sleep 1000,
          Attempt, Warn (status_or_0 e2) 2000, Sleep 2000,
          Attempt, Warn (status_or_0 e3) 4000, Sleep 4000, Attempt]))"
proof (intro conjI allI impI)
  fix e1 e2 w1 w2 w3 v
  assume h: "fn w = (Inl e1, w1) \<and> transient e1 \<and> fn w1 = (Inl e2, w2) \<and> transient e2 \<and>
      fn w2 = (Inr v, w3)"
  have "callWithRetry fn 3 1000 w [] =
      callWithRetry fn 2 2000 w1 [Attempt, Warn (status_or_0 e1) 1000, Sleep 1000]"
    using h callWithRetry_retry [of fn w e1 w1 3 1000 "[]"] by simp
  also have "\<dots> = callWithRetry fn 1 4000 w2
      [Attempt, Warn (status_or_0 e1) 1000, Sleep 1000, Attempt, Warn (status_or_0 e2) 2000, Sleep 2000]"
    using h callWithRetry_retry [of fn w1 e2 w2 2 2000] by simp
  also have "\<dots> = (Inr v, w3,
         [Attempt, Warn (status_or_0 e1) 1000, Sleep 1000,
          Attempt, Warn (status_or_0 e2) 2000, Sleep 2000, Attempt])"
    using h callWithRetry_success [of fn w2 v w3] by simp
  finally show "callWithRetry fn 3 1000 w [] =
        (Inr v, w3,
         [Attempt, Warn (status_or_0 e1) 1000, Sleep 1000,
          Attempt, Warn (status_or_0 e2) 2000, Sleep 2000, Attempt])" .
next
  fix e w'
  assume "fn w = (Inl e, w') \<and> transient e \<and> retries > 0"
  then show "callWithRetry fn retries delay w tr =
        callWithRetry fn (retries - 1) (2 * delay) w'
          (tr @ [Attempt, Warn (status_or_0 e) delay, Sleep delay])"
    by (simp add: callWithRetry_retry)
next
  fix e w'
  assume "fn w = (Inl e, w') \<and> (\<not> transient e \<or> retries \<le> 0)"
  then show "callWithRetry fn retries delay w tr = (Inl e, w', tr @ [Attempt])"
    using callWithRetry_propagate [of fn w e w' retries] by blast
next
  fix e1 e2 e3 e4 w1 w2 w3 w4
  assume h: "fn w = (Inl e1, w1) \<and> transient e1 \<and> fn w1 = (Inl e2, w2) \<and> transient e2 \<and>
      fn w2 = (Inl e3, w3) \<and> transient e3 \<and> fn w3 = (Inl e4, w4)"
  have "callWithRetry fn 3 1000 w [] =
      callWithRetry fn 2 2000 w1 [Attempt, Warn (status_or_0 e1) 1000, Sleep 1000]"
    using h callWithRetry_retry [of fn w e1 w1 3 1000 "[]"] by simp
  also have "\<dots> = callWithRetry fn 1 4000 w2
      [Attempt, Warn (status_or_0 e1) 1000, Sleep 1000, Attempt, Warn (status_or_0 e2) 2000, Sleep 2000]"
    using h callWithRetry_retry [of fn w1 e2 w2 2 2000] by simp
  also have "\<dots> = callWithRetry fn 0 8000 w3
      [Attempt, Warn (status_or_0 e1) 1000, Sleep 1000, Attempt, Warn (status_or_0 e2) 2000, Sleep 2000,
       Attempt, Warn (status_or_0 e3) 4000, Sleep 4000]"
    using h callWithRetry_retry [of fn w2 e3 w3 1 4000] by simp
  also have "\<dots> = (Inl e4, w4,
         [Attempt, Warn (status_or_0 e1) 1000, Sleep 1000,
          Attempt, Warn (status_or_0 e2) 2000, Sleep 2000,
          Attempt, Warn (status_or_0 e3) 4000, Sleep 4000, Attempt])"
    using h callWithRetry_propagate [of fn w3 e4 w4 0] by simp
  finally show "callWithRetry fn 3 1000 w [] =
        (Inl e4, w4,
         [Attempt, Warn (status_or_0 e1) 1000, Sleep 1000,
          Attempt, Warn (status_or_0 e2) 2000, Sleep 2000,
          Attempt, Warn (status_or_0 e3) 4000, Sleep 4000, Attempt])" .
qed

theorem retry_policy_witness:
  "transient err429 \<and> transient err503 \<and> \<not> transient errKey \<and>
   callWithRetry scripted 3 1000 [Inl err429, Inl err503, Inr ''pong''] [] =
     (Inr ''pong'', [],
      [Attempt, Warn 429 1000, Sleep 1000, Attempt, Warn 503 2000, Sleep 2000, Attempt]) \<and>
   callWithRetry scripted 3 1000 [Inl errKey, Inr ''pong''] [] =
     (Inl errKey, [Inr ''pong''], [Attempt]) \<and>
   callWithRetry scripted 3 1000 [Inl err429, Inl err503, Inl err429, Inl err503, Inr ''pong''] [] =
     (Inl err503, [Inr ''pong''],
      [Attempt, Warn 429 1000, Sleep 1000, Attempt, Warn 503 2000, Sleep 2000,
       Attempt, Warn 429 4000, Sleep 4000, Attempt])"
proof -
  have t: "transient err429" "transient err503" "\<not> transient errKey"
    by code_simp+
  have s: "status_or_0 err429 = 429" "status_or_0 err503 = 503"
    by (simp_all add: status_or_0_def err429_def err503_def)
  have "callWithRetry scripted 3 1000 [Inl err429, Inl err503, Inr ''pong''] [] =
     (Inr ''pong'', [],
      [Attempt, Warn (status_or_0 err429) 1000, Sleep 1000,
       Attempt, Warn (status_or_0 err503) 2000, Sleep 2000, Attempt])"
    using retry_policy [of scripted "[Inl err429, Inl err503, Inr ''pong'']" 3 1000 "[]",
        THEN conjunct1, rule_format, of err429 "[Inl err503, Inr ''pong'']" err503 "[Inr ''pong'']"
          "''pong''" "[]"] t
    by simp
  moreover have "callWithRetry scripted 3 1000 [Inl errKey, Inr ''pong''] [] =
     (Inl errKey, [Inr ''pong''], [Attempt])"
    using retry_policy [of scripted "[Inl errKey, Inr ''pong'']" 3 1000 "[]",
        THEN conjunct2, THEN conjunct2, THEN conjunct1, rule_format, of errKey "[Inr ''pong'']"] t
    by simp
  moreover have "callWithRetry scripted 3 1000
       [Inl err429, Inl err503, Inl err429, Inl err503, Inr ''pong''] [] =
     (Inl err503, [Inr ''pong''],
      [Attempt, Warn (status_or_0 err429) 1000, Sleep 1000,
       Attempt, Warn (status_or_0 err503) 2000, Sleep 2000,
       Attempt, Warn (status_or_0 err429) 4000, Sleep 4000, Attempt])"
    using retry_policy [of scripted "[Inl err429, Inl err503, Inl err429, Inl err503, Inr ''pong'']"
          3 1000 "[]", THEN conjunct2, THEN conjunct2, THEN conjunct2, rule_format,
        of err429 "[Inl err503, Inl err429, Inl err503, Inr ''pong'']"
           err503 "[Inl err429, Inl err503, Inr ''pong'']"
           err429 "[Inl err503, Inr ''pong'']" err503 "[Inr ''pong'']"] t
    by simp
  ultimately show ?thesis
    using t s by simp
qed

section \<open>Properties of the response parser\<close>

lemma prefix_starts_with_ci: "prefix label s \<Longrightarrow> starts_with_ci label s"
  by (induction label s rule: starts_with_ci.induct) auto





lemma match_field_skip:
  "\<not> starts_with_ci label (c # cs) \<Longrightarrow> match_field label (c # cs) = match_field label cs"
  by simp

lemma match_field_line:
  assumes "label \<noteq> []"
    and ws: "\<forall>c \<in> set ws. is_space c"
    and body: "body \<noteq> []" "\<not> is_space (hd body)" "\<forall>c \<in> set body. \<not> is_line_terminator c"
    and rest: "rest = [] \<or> is_line_terminator (hd rest)"
  shows "match_field label (label @ ws @ body @ rest) = Some body"
proof -
  obtain l ls where label: "label = l # ls"
    using assms(1) by (cases label) auto
  have "starts_with_ci label (label @ ws @ body @ rest)"
    by (rule prefix_starts_with_ci) simp
  then have "match_field label (label @ ws @ body @ rest) =
      Some (takeWhile (\<lambda>x. \<not> is_line_terminator x) (dropWhile is_space (ws @ body @ rest)))"
    by (simp add: label)
  also have "dropWhile is_space (ws @ body @ rest) = body @ rest"
    using ws body(1,2) by (cases body) (simp_all add: dropWhile_append2)
  also have "takeWhile (\<lambda>x. \<not> is_line_terminator x) (body @ rest) = body"
    using body(3) rest by (cases rest) (simp_all add: takeWhile_append2)
  finally show ?thesis .
qed











lemma trim_no_break_space:
  "trim (nbsp @ ''a cat '' @ nbsp) = ''a cat'' \<and>
   map_option prompt (section_prompt (''PROMPT:'' @ nbsp @ ''a cat'' @ nbsp)) = Some ''a cat''"
  by code_simp




section \<open>Properties of the connection-health state machine\<close>

lemma checkHealth_done_connection:
  "connection (checkHealth_done res s) =
     (if success res then Online else if isQuota res = Some True then Throttled else Error)"
  by (simp add: checkHealth_done_def)

lemma checkHealth_done_cooldown: "cooldown (checkHealth_done res s) = cooldown s"
  by (simp add: checkHealth_done_def)

lemma handleSearch_catch_quota:
  "str_includes (toLowerCase (toString err)) ''429'' \<or>
   str_includes (toLowerCase (toString err)) ''quota'' \<Longrightarrow>
   cooldown (handleSearch_catch err s) = 30 \<and>
   connection (handleSearch_catch err s) = connection s"
  by (simp add: handleSearch_catch_def)

lemma second_counts_down:
  "cooldown s > 0 \<Longrightarrow>
   cooldown (app_step Second s) = cooldown s - 1 \<and>
   connection (app_step Second s) =
     (if cooldown s = 1 \<and> connection s = Throttled then Online else connection s)"
  by (auto simp: cooldown_effect_def)

lemma throttled_recovers:
  "connection s = Throttled \<Longrightarrow> cooldown s = int (Suc n) \<Longrightarrow>
   app_run (replicate (Suc n) Second) s = s\<lparr>cooldown := 0, connection := Online\<rparr>"
proof (induction n arbitrary: s)
  case 0
  then show ?case
    by (simp add: app_run_def cooldown_effect_def)
next
  case (Suc n)
  let ?s = "s\<lparr>cooldown := cooldown s - 1\<rparr>"
  have step: "app_step Second s = ?s"
    using Suc.prems by (simp add: cooldown_effect_def)
  have "app_run (replicate (Suc n) Second) ?s = ?s\<lparr>cooldown := 0, connection := Online\<rparr>"
    using Suc.prems by (intro Suc.IH) simp_all
  then show ?case
    using step by (simp add: app_run_def)
qed

text \<open>
  Claim C8, evaluated on the code. At start-up (connection checking, cooldown 0) a probe
  whose attempts are all answered with 429 is classified as quota. \<^verbatim>\<open>checkHealth\<close> sets
  the connection to throttled and leaves the cooldown at 0: no counter is set. The
  effect of the next render then finds a throttled connection without a positive
  cooldown and sets it to online. The failure path of a discovery call, on the same
  failure, sets the cooldown to 30.
\<close>

theorem probe_quota_evaluation:
  "quota_probe =
     \<lparr>success = False, message = ''Quota Alert'', isQuota = Some True,
      details = Some ''ApiError: 429 Too Many Requests''\<rparr> \<and>
   checkHealth_done quota_probe (checkHealth_begin app_initial) =
     \<lparr>connection = Throttled, cooldown = 0,
      error = Some \<lparr>msg = ''Quota Alert'',
        banner_details = Some ''ApiError: 429 Too Many Requests'', banner_type = Some Quota\<rparr>\<rparr> \<and>
   app_run [ProbeStart, ProbeDone quota_probe] app_initial =
     \<lparr>connection = Online, cooldown = 0,
      error = Some \<lparr>msg = ''Quota Alert'',
        banner_details = Some ''ApiError: 429 Too Many Requests'', banner_type = Some Quota\<rparr>\<rparr> \<and>
   cooldown (handleSearch_catch err429 app_initial) = 30"
  by code_simp

end
